theory Spec2Isabelle
  imports Complex_Main
begin

section \<open>JavaScript numbers\<close>

text \<open>
  The script computes in IEEE 754 binary64. A finite double is a real number, and the
  result of an arithmetic operation or of \<^verbatim>\<open>Math.sqrt\<close> is the exact result rounded to the
  nearest double, ties to the even significand. \<open>double_exp x\<close> is the exponent of the
  binade of \<open>x\<close> (not below \<open>-1022\<close>, where the subnormal numbers begin), so that doubles
  near \<open>x\<close> are the multiples of \<open>2\<close> to the power \<open>double_exp x - 52\<close>. Overflow to infinity
  (beyond \<open>2\<^sup>1\<^sup>0\<^sup>2\<^sup>4\<close>) and \<^verbatim>\<open>NaN\<close> operands are not represented.
\<close>

definition round_even :: "real \<Rightarrow> int" where
  "round_even y =
     (let f = \<lfloor>y\<rfloor>; d = y - of_int f
      in if d < 1 / 2 then f else if 1 / 2 < d then f + 1
         else if even f then f else f + 1)"

definition double_exp :: "real \<Rightarrow> int" where
  "double_exp x = max \<lfloor>log 2 \<bar>x\<bar>\<rfloor> (- 1022)"

definition round_double :: "real \<Rightarrow> real" where
  "round_double x =
     (if x = 0 then 0
      else let u = 2 powr of_int (double_exp x - 52)
           in of_int (round_even (x / u)) * u)"

section \<open>The drawing surface\<close>

text \<open>
  The program (\<^verbatim>\<open>script.js\<close>) paints on one HTML canvas through its 2D context.
  The canvas is modelled as a grid of pixels addressed by column and row. Every colour the
  script ever assigns to \<^verbatim>\<open>fillStyle\<close> is opaque: \<^verbatim>\<open>'#000000'\<close>, the colour picker's
  \<^verbatim>\<open>'#rrggbb'\<close>, \<^verbatim>\<open>'rgba(0,0,0,1)'\<close> and \<^verbatim>\<open>hsl(h, 100%, 50%)\<close>. A pixel is therefore either
  fully transparent or holds one of these colours; anti-aliasing (partial coverage at the
  border of a shape) is not modelled, a pixel counts as covered when its centre lies in the
  shape.
\<close>

datatype css_color =
    Rgb nat nat nat   \<comment> \<open>\<^verbatim>\<open>'#rrggbb'\<close> and \<^verbatim>\<open>'rgba(r,g,b,1)'\<close>\<close>
  | Hsl real          \<comment> \<open>\<^verbatim>\<open>hsl(h, 100%, 50%)\<close>\<close>

datatype px = Transparent | Opaque css_color

datatype composite_op = SourceOver | DestinationOut

record surface =
  width :: nat
  height :: nat
  pixel :: "nat \<Rightarrow> nat \<Rightarrow> px"

text \<open>
  Compositing of a source pixel onto a destination pixel. With \<^verbatim>\<open>'source-over'\<close> an
  opaque source replaces the destination; with \<^verbatim>\<open>'destination-out'\<close> the destination is
  kept only where the source is transparent, whatever the source's colour.
\<close>

fun composite :: "composite_op \<Rightarrow> px \<Rightarrow> px \<Rightarrow> px" where
  "composite SourceOver Transparent d = d"
| "composite SourceOver (Opaque c) d = Opaque c"
| "composite DestinationOut Transparent d = d"
| "composite DestinationOut (Opaque c) d = Transparent"

definition rect_covers :: "real \<Rightarrow> real \<Rightarrow> real \<Rightarrow> real \<Rightarrow> nat \<Rightarrow> nat \<Rightarrow> bool" where
  "rect_covers x y w h i j \<longleftrightarrow>
     min x (x + w) \<le> real i + 1 / 2 \<and> real i + 1 / 2 < max x (x + w) \<and>
     min y (y + h) \<le> real j + 1 / 2 \<and> real j + 1 / 2 < max y (y + h)"

definition disc_covers :: "real \<Rightarrow> real \<Rightarrow> real \<Rightarrow> nat \<Rightarrow> nat \<Rightarrow> bool" where
  "disc_covers cx cy r i j \<longleftrightarrow>
     (real i + 1 / 2 - cx)\<^sup>2 + (real j + 1 / 2 - cy)\<^sup>2 < r\<^sup>2"

definition paint ::
  "composite_op \<Rightarrow> css_color \<Rightarrow> (nat \<Rightarrow> nat \<Rightarrow> bool) \<Rightarrow> surface \<Rightarrow> surface" where
  "paint gco col cov c =
     c\<lparr>pixel := (\<lambda>i j. if i < width c \<and> j < height c \<and> cov i j
                         then composite gco (Opaque col) (pixel c i j)
                         else pixel c i j)\<rparr>"

text \<open>
  \<^verbatim>\<open>canvas.toDataURL()\<close> serialises the pixels losslessly (PNG); the entry is opaque to
  the script, which only hands it back to an \<^verbatim>\<open>Image\<close>.
\<close>

datatype data_url = DataURL surface

definition toDataURL :: "surface \<Rightarrow> data_url" where
  "toDataURL c = DataURL c"

fun decoded :: "data_url \<Rightarrow> surface" where
  "decoded (DataURL c) = c"

section \<open>Program state\<close>

text \<open>
  The module-level variables of the script (lines 19--25), the two context attributes the
  script writes, the \<^verbatim>\<open>active\<close> class of the eraser button, the size read-out, and the
  images whose \<^verbatim>\<open>onload\<close> has not fired yet. \<^verbatim>\<open>brushSize\<close> is the result of
  \<^verbatim>\<open>parseInt\<close>: an integer, or \<open>None\<close> for \<^verbatim>\<open>NaN\<close>.
\<close>

record state =
  canvas :: surface
  fillStyle :: css_color
  globalCompositeOperation :: composite_op
  isDrawing :: bool
  currentColor :: css_color
  brushSize :: "int option"
  brushType :: string
  isEraser :: bool
  history :: "data_url list"
  historyStep :: int
  eraserBtnActive :: bool
  brushSizeValue :: "int option"
  pendingImages :: "data_url list"

datatype js_error =
    RangeError       \<comment> \<open>\<^verbatim>\<open>history.length = n\<close> with negative \<open>n\<close>\<close>
  | IndexSizeError   \<comment> \<open>\<^verbatim>\<open>ctx.arc\<close> with a negative radius\<close>

text \<open>
  A handler either returns or is aborted by an exception; in both cases the variables keep
  what was written up to that point.
\<close>

datatype result = Returns state | Throws js_error state

fun state_of :: "result \<Rightarrow> state" where
  "state_of (Returns s) = s"
| "state_of (Throws e s) = s"

fun and_then :: "result \<Rightarrow> (state \<Rightarrow> result) \<Rightarrow> result" where
  "and_then (Returns s) f = f s"
| "and_then (Throws e s) f = Throws e s"

subsection \<open>Context operations used by the script\<close>

definition fillRect :: "state \<Rightarrow> real \<Rightarrow> real \<Rightarrow> real \<Rightarrow> real \<Rightarrow> state" where
  "fillRect s x y w h =
     (if w = 0 \<or> h = 0 then s
      else s\<lparr>canvas := paint (globalCompositeOperation s) (fillStyle s)
                               (rect_covers x y w h) (canvas s)\<rparr>)"

text \<open>\<^verbatim>\<open>clearRect\<close> ignores the composite operation: covered pixels become transparent.\<close>

definition clearRect :: "state \<Rightarrow> real \<Rightarrow> real \<Rightarrow> real \<Rightarrow> real \<Rightarrow> state" where
  "clearRect s x y w h =
     (if w = 0 \<or> h = 0 then s
      else s\<lparr>canvas := (canvas s)\<lparr>pixel := (\<lambda>i j.
               if i < width (canvas s) \<and> j < height (canvas s) \<and> rect_covers x y w h i j
               then Transparent else pixel (canvas s) i j)\<rparr>\<rparr>)"

text \<open>
  \<^verbatim>\<open>drawImage(img, 0, 0)\<close> composites the image's pixels onto the canvas with the
  current composite operation.
\<close>

definition drawImage :: "state \<Rightarrow> surface \<Rightarrow> state" where
  "drawImage s img =
     s\<lparr>canvas := (canvas s)\<lparr>pixel := (\<lambda>i j.
         if i < width (canvas s) \<and> j < height (canvas s) \<and> i < width img \<and> j < height img
         then composite (globalCompositeOperation s) (pixel img i j) (pixel (canvas s) i j)
         else pixel (canvas s) i j)\<rparr>\<rparr>"

section \<open>History: \<^verbatim>\<open>saveState\<close> and undo\<close>

text \<open>
  \<^verbatim>\<open>saveState\<close> (lines 28--38). Assigning a negative number to \<^verbatim>\<open>history.length\<close>
  raises a RangeError, after \<^verbatim>\<open>historyStep\<close> has been incremented.
\<close>

definition saveState :: "state \<Rightarrow> result" where
  "saveState s =
     (let step = historyStep s + 1;
          s1 = s\<lparr>historyStep := step\<rparr>
      in if step < int (length (history s)) \<and> step < 0 then Throws RangeError s1
         else
           let h1 = (if step < int (length (history s))
                     then take (nat step) (history s) else history s);
               h2 = h1 @ [toDataURL (canvas s)]
           in if length h2 > 50
              then Returns (s1\<lparr>history := tl h2, historyStep := step - 1\<rparr>)
              else Returns (s1\<lparr>history := h2\<rparr>))"

text \<open>
  The undo button (lines 96--106). The handler only starts loading the entry; the canvas is
  overwritten later, when the image's \<^verbatim>\<open>onload\<close> fires. Were the index out of range the
  image source would be \<^verbatim>\<open>undefined\<close>, the load would fail and \<^verbatim>\<open>onload\<close> never fire.
\<close>

definition undoBtn_click :: "state \<Rightarrow> state" where
  "undoBtn_click s =
     (if historyStep s > 0 then
        let step = historyStep s - 1;
            s1 = s\<lparr>historyStep := step\<rparr>
        in if nat step < length (history s)
           then s1\<lparr>pendingImages := pendingImages s @ [history s ! nat step]\<rparr>
           else s1
      else s)"

text \<open>The \<^verbatim>\<open>onload\<close> callback of the image created by undo (lines 100--103).\<close>

definition img_onload :: "state \<Rightarrow> data_url \<Rightarrow> state" where
  "img_onload s img =
     drawImage (clearRect s 0 0 (real (width (canvas s))) (real (height (canvas s))))
               (decoded img)"

text \<open>The \<open>k\<close>-th pending image finishes loading.\<close>

definition image_loaded :: "state \<Rightarrow> nat \<Rightarrow> state" where
  "image_loaded s k =
     (if k < length (pendingImages s)
      then img_onload (s\<lparr>pendingImages := take k (pendingImages s) @ drop (Suc k) (pendingImages s)\<rparr>)
                      (pendingImages s ! k)
      else s)"

section \<open>Brush engine\<close>

text \<open>
  What a pointer event and its environment supply to a handler: the pointer position, the
  canvas's bounding rectangle, the value \<^verbatim>\<open>Date.now()\<close> returns, and the values the
  successive calls of \<^verbatim>\<open>Math.random()\<close> return during the handler.
\<close>

record pointer_event =
  clientX :: real
  clientY :: real
  rectLeft :: real
  rectTop :: real
  dateNow :: nat
  mathRandom :: "nat \<Rightarrow> real"

definition getMousePos :: "pointer_event \<Rightarrow> real \<times> real" where
  "getMousePos e =
     (round_double (clientX e - rectLeft e), round_double (clientY e - rectTop e))"

text \<open>
  \<^verbatim>\<open>drawRound\<close> (lines 126--130): \<^verbatim>\<open>arc\<close> returns without adding to the path when the
  radius is \<^verbatim>\<open>NaN\<close>, and throws when it is negative.
\<close>

definition drawRound :: "state \<Rightarrow> real \<Rightarrow> real \<Rightarrow> result" where
  "drawRound s x y =
     (case brushSize s of
        None \<Rightarrow> Returns s
      | Some n \<Rightarrow>
          if n < 0 then Throws IndexSizeError s
          else Returns (s\<lparr>canvas := paint (globalCompositeOperation s) (fillStyle s)
                              (disc_covers x y (round_double (real_of_int n / 2)))
                              (canvas s)\<rparr>))"

text \<open>\<^verbatim>\<open>drawSquare\<close> (lines 132--134); \<^verbatim>\<open>fillRect\<close> does nothing on \<^verbatim>\<open>NaN\<close>.\<close>

definition drawSquare :: "state \<Rightarrow> real \<Rightarrow> real \<Rightarrow> state" where
  "drawSquare s x y =
     (case brushSize s of
        None \<Rightarrow> s
      | Some n \<Rightarrow> fillRect s (round_double (x - round_double (real_of_int n / 2)))
                            (round_double (y - round_double (real_of_int n / 2)))
                            (real_of_int n) (real_of_int n))"

text \<open>
  The loop of \<^verbatim>\<open>drawSpray\<close> (lines 138--145), from iteration \<open>i\<close> on. Iteration \<open>i\<close>
  takes the random numbers \<open>2 i\<close> and \<open>2 i + 1\<close> of this call. The counter, the brush size
  and the density are integers, on which double arithmetic is exact (below \<open>2\<^sup>5\<^sup>3\<close>); every
  other result is rounded.
\<close>

function spray_loop ::
  "(nat \<Rightarrow> real) \<Rightarrow> real \<Rightarrow> real \<Rightarrow> int \<Rightarrow> int \<Rightarrow> int \<Rightarrow> state \<Rightarrow> state" where
  "spray_loop rnd x y brushSz density i s =
     (if i < density then
        let offsetX = round_double
              (round_double (rnd (nat (2 * i)) - 1 / 2) * real_of_int brushSz);
            offsetY = round_double
              (round_double (rnd (nat (2 * i + 1)) - 1 / 2) * real_of_int brushSz);
            distance = round_double (sqrt (round_double
              (round_double (offsetX * offsetX) + round_double (offsetY * offsetY))))
        in spray_loop rnd x y brushSz density (i + 1)
             (if distance \<le> round_double (real_of_int brushSz / 2)
              then fillRect s (round_double (x + offsetX)) (round_double (y + offsetY)) 1 1
              else s)
      else s)"
  by pat_completeness auto
termination
  by (relation "measure (\<lambda>(rnd, x, y, brushSz, density, i, s). nat (density - i))") auto

declare spray_loop.simps [simp del]

text \<open>\<^verbatim>\<open>drawSpray\<close> (lines 136--146); with \<^verbatim>\<open>NaN\<close> the loop test fails at once.\<close>

definition drawSpray :: "state \<Rightarrow> (nat \<Rightarrow> real) \<Rightarrow> real \<Rightarrow> real \<Rightarrow> state" where
  "drawSpray s rnd x y =
     (case brushSize s of
        None \<Rightarrow> s
      | Some n \<Rightarrow> let density = n * 2 in spray_loop rnd x y n density 0 s)"

text \<open>
  \<^verbatim>\<open>a % b\<close> on a non-negative \<open>a\<close> and a positive \<open>b\<close>; the remainder of two doubles is
  a double, so nothing is rounded.
\<close>

definition js_rem :: "real \<Rightarrow> real \<Rightarrow> real" where
  "js_rem a b = a - b * of_int \<lfloor>a / b\<rfloor>"

text \<open>\<^verbatim>\<open>drawRainbow\<close> (lines 148--152).\<close>

definition drawRainbow :: "state \<Rightarrow> nat \<Rightarrow> real \<Rightarrow> real \<Rightarrow> result" where
  "drawRainbow s now x y =
     (let hue = js_rem (round_double (real now / 10)) 360
      in drawRound (s\<lparr>fillStyle := Hsl hue\<rparr>) x y)"

text \<open>\<^verbatim>\<open>draw\<close> (lines 154--177); the \<^verbatim>\<open>switch\<close> has no default case.\<close>

definition draw :: "state \<Rightarrow> pointer_event \<Rightarrow> real \<Rightarrow> real \<Rightarrow> result" where
  "draw s e x y =
     (let s1 = (if isEraser s
                then s\<lparr>globalCompositeOperation := DestinationOut, fillStyle := Rgb 0 0 0\<rparr>
                else s\<lparr>globalCompositeOperation := SourceOver, fillStyle := currentColor s\<rparr>)
      in if brushType s = ''round'' then drawRound s1 x y
         else if brushType s = ''square'' then Returns (drawSquare s1 x y)
         else if brushType s = ''spray'' then Returns (drawSpray s1 (mathRandom e) x y)
         else if brushType s = ''rainbow'' then drawRainbow s1 (dateNow e) x y
         else Returns s1)"

section \<open>Controls\<close>

text \<open>
  \<^verbatim>\<open>parseInt(string)\<close> without a radix: leading white space is skipped, a sign is read,
  a \<^verbatim>\<open>0x\<close> prefix selects radix 16, and the longest prefix of digits is converted;
  \<open>None\<close> is \<^verbatim>\<open>NaN\<close>. (Only the ASCII white-space characters are recognised here, and the
  rounding of integers beyond \<open>2\<^sup>5\<^sup>3\<close> is left out.)
\<close>

definition is_space :: "char \<Rightarrow> bool" where
  "is_space c \<longleftrightarrow> (of_char c :: nat) \<in> {9, 10, 11, 12, 13, 32}"

definition digit_value :: "char \<Rightarrow> nat option" where
  "digit_value c =
     (let k = (of_char c :: nat)
      in if 48 \<le> k \<and> k \<le> 57 then Some (k - 48)
         else if 97 \<le> k \<and> k \<le> 102 then Some (k - 87)
         else if 65 \<le> k \<and> k \<le> 70 then Some (k - 55)
         else None)"

definition is_digit :: "nat \<Rightarrow> char \<Rightarrow> bool" where
  "is_digit radix c = (case digit_value c of None \<Rightarrow> False | Some d \<Rightarrow> d < radix)"

definition parseInt :: "string \<Rightarrow> int option" where
  "parseInt str =
     (let s1 = dropWhile is_space str;
          neg = (s1 \<noteq> [] \<and> hd s1 = CHR ''-'');
          s2 = (if s1 \<noteq> [] \<and> (hd s1 = CHR ''+'' \<or> hd s1 = CHR ''-'') then tl s1 else s1);
          hex = (length s2 \<ge> 2 \<and> s2 ! 0 = CHR ''0'' \<and> (s2 ! 1 = CHR ''x'' \<or> s2 ! 1 = CHR ''X''));
          radix = (if hex then 16 else 10);
          s3 = (if hex then drop 2 s2 else s2);
          z = takeWhile (is_digit radix) s3;
          n = foldl (\<lambda>a c. case digit_value c of None \<Rightarrow> a | Some d \<Rightarrow> a * radix + d) 0 z
      in if z = [] then None
         else Some (if neg then - int n else int n))"

text \<open>The colour picker (lines 55--59).\<close>

definition colorPicker_input :: "state \<Rightarrow> css_color \<Rightarrow> state" where
  "colorPicker_input s v = s\<lparr>currentColor := v, isEraser := False, eraserBtnActive := False\<rparr>"

text \<open>The size slider (lines 61--64).\<close>

definition brushSizeSlider_input :: "state \<Rightarrow> string \<Rightarrow> state" where
  "brushSizeSlider_input s v =
     (let n = parseInt v in s\<lparr>brushSize := n, brushSizeValue := n\<rparr>)"

text \<open>The brush selector (lines 66--68).\<close>

definition brushTypeSelect_change :: "state \<Rightarrow> string \<Rightarrow> state" where
  "brushTypeSelect_change s v = s\<lparr>brushType := v\<rparr>"

text \<open>The clear button (lines 70--76); \<open>confirmed\<close> is the answer to the prompt.\<close>

definition clearBtn_click :: "state \<Rightarrow> bool \<Rightarrow> result" where
  "clearBtn_click s confirmed =
     (if confirmed then
        and_then (saveState s) (\<lambda>s1.
          let s2 = s1\<lparr>fillStyle := Rgb 0 0 0\<rparr>
          in Returns (fillRect s2 0 0 (real (width (canvas s2))) (real (height (canvas s2)))))
      else Returns s)"

text \<open>The eraser button (lines 78--81).\<close>

definition eraserBtn_click :: "state \<Rightarrow> state" where
  "eraserBtn_click s = s\<lparr>isEraser := \<not> isEraser s, eraserBtnActive := \<not> isEraser s\<rparr>"

text \<open>The fill button (lines 83--87).\<close>

definition fillBtn_click :: "state \<Rightarrow> result" where
  "fillBtn_click s =
     and_then (saveState s) (\<lambda>s1.
       let s2 = s1\<lparr>fillStyle := currentColor s1\<rparr>
       in Returns (fillRect s2 0 0 (real (width (canvas s2))) (real (height (canvas s2)))))"

text \<open>The mouse handlers (lines 180--200).\<close>

definition mousedown :: "state \<Rightarrow> pointer_event \<Rightarrow> result" where
  "mousedown s e =
     and_then (saveState (s\<lparr>isDrawing := True\<rparr>)) (\<lambda>s1.
       let pos = getMousePos e in draw s1 e (fst pos) (snd pos))"

definition mousemove :: "state \<Rightarrow> pointer_event \<Rightarrow> result" where
  "mousemove s e =
     (if isDrawing s then let pos = getMousePos e in draw s e (fst pos) (snd pos)
      else Returns s)"

definition mouseup :: "state \<Rightarrow> state" where
  "mouseup s = s\<lparr>isDrawing := False\<rparr>"

definition mouseout :: "state \<Rightarrow> state" where
  "mouseout s = s\<lparr>isDrawing := False\<rparr>"

section \<open>Event sequences\<close>

text \<open>
  The events of a session. The save button only offers a download and leaves the state as
  it is; an exception aborts the handler it occurs in and the page goes on with the next
  event. (Touch and keyboard events call the same functions and are not listed
  separately; window resizing is left out.)
\<close>

datatype event =
    MouseDown pointer_event
  | MouseMove pointer_event
  | MouseUp
  | MouseOut
  | ColorInput css_color
  | BrushSizeInput string
  | BrushTypeChange string
  | ClearClick bool
  | EraserClick
  | FillClick
  | SaveClick
  | UndoClick
  | ImageLoaded nat

fun dispatch :: "state \<Rightarrow> event \<Rightarrow> result" where
  "dispatch s (MouseDown e) = mousedown s e"
| "dispatch s (MouseMove e) = mousemove s e"
| "dispatch s MouseUp = Returns (mouseup s)"
| "dispatch s MouseOut = Returns (mouseout s)"
| "dispatch s (ColorInput v) = Returns (colorPicker_input s v)"
| "dispatch s (BrushSizeInput v) = Returns (brushSizeSlider_input s v)"
| "dispatch s (BrushTypeChange v) = Returns (brushTypeSelect_change s v)"
| "dispatch s (ClearClick confirmed) = clearBtn_click s confirmed"
| "dispatch s EraserClick = Returns (eraserBtn_click s)"
| "dispatch s FillClick = fillBtn_click s"
| "dispatch s SaveClick = Returns s"
| "dispatch s UndoClick = Returns (undoBtn_click s)"
| "dispatch s (ImageLoaded k) = Returns (image_loaded s k)"

fun run :: "state \<Rightarrow> event list \<Rightarrow> state" where
  "run s [] = s"
| "run s (ev # evs) = run (state_of (dispatch s ev)) evs"

text \<open>
  The state when the script reaches line 41: the variables at their declared values and a
  canvas of the given size that \<^verbatim>\<open>resizeCanvas\<close> has filled with \<^verbatim>\<open>'#000000'\<close>; then the
  state after the initial \<^verbatim>\<open>saveState()\<close> of line 41.
\<close>

definition black_canvas :: "nat \<Rightarrow> nat \<Rightarrow> surface" where
  "black_canvas w h =
     \<lparr>width = w, height = h,
      pixel = (\<lambda>i j. if i < w \<and> j < h then Opaque (Rgb 0 0 0) else Transparent)\<rparr>"

definition script_start :: "surface \<Rightarrow> state" where
  "script_start c =
     \<lparr>canvas = c, fillStyle = Rgb 0 0 0, globalCompositeOperation = SourceOver,
      isDrawing = False, currentColor = Rgb 255 255 255, brushSize = Some 5,
      brushType = ''round'', isEraser = False, history = [], historyStep = - 1,
      eraserBtnActive = False, brushSizeValue = Some 5, pendingImages = []\<rparr>"

definition page_loaded :: "surface \<Rightarrow> state" where
  "page_loaded c = state_of (saveState (script_start c))"

text \<open>\<open>n\<close> consecutive calls of \<^verbatim>\<open>saveState\<close>.\<close>

fun pushes :: "nat \<Rightarrow> state \<Rightarrow> result" where
  "pushes 0 s = Returns s"
| "pushes (Suc n) s = and_then (saveState s) (pushes n)"

text \<open>
  A state the page reaches: loaded on a full-size canvas, one more entry pushed, one undo.
\<close>

definition undone_state :: state where
  "undone_state =
     undoBtn_click (state_of (saveState (page_loaded (black_canvas 1200 600))))"

text \<open>
  The history is well formed when it holds at most 50 entries and the cursor is \<open>-1\<close> (no
  entry yet) or indexes one of them.
\<close>

definition history_inv :: "state \<Rightarrow> bool" where
  "history_inv s \<longleftrightarrow>
     length (history s) \<le> 50 \<and> - 1 \<le> historyStep s \<and>
     historyStep s < int (length (history s))"

text \<open>A state with a full history and the cursor on its last entry.\<close>

definition full_state :: state where
  "full_state =
     (script_start (black_canvas 1200 600))
       \<lparr>history := replicate 50 (toDataURL (black_canvas 1200 600)), historyStep := 49\<rparr>"

text \<open>
  A pointer event at canvas position (100, 100), and the state the page reaches when the
  user switches the eraser on and clicks once on the canvas with it.
\<close>

definition click_at :: pointer_event where
  "click_at = \<lparr>clientX = 100, clientY = 100, rectLeft = 0, rectTop = 0, dateNow = 0,
                mathRandom = (\<lambda>k. 0)\<rparr>"

definition erased_state :: state where
  "erased_state =
     run (page_loaded (black_canvas 1200 600)) [EraserClick, MouseDown click_at, MouseUp]"


section \<open>Notions used to state the properties of the brushes\<close>





text \<open>
  Two states that agree on everything but the configured colour and the context's fill
  style; two outcomes of a handler that agree up to that; two pointer events that agree on
  everything but the clock reading.
\<close>

definition same_but_color :: "state \<Rightarrow> state \<Rightarrow> bool" where
  "same_but_color s s' \<longleftrightarrow>
     s' = s\<lparr>currentColor := currentColor s', fillStyle := fillStyle s'\<rparr>"

fun same_outcome :: "result \<Rightarrow> result \<Rightarrow> bool" where
  "same_outcome (Returns a) (Returns b) = same_but_color a b"
| "same_outcome (Throws e a) (Throws e' b) = (e = e' \<and> same_but_color a b)"
| "same_outcome (Returns a) (Throws e' b) = False"
| "same_outcome (Throws e a) (Returns b) = False"

fun same_but_clock :: "event \<Rightarrow> event \<Rightarrow> bool" where
  "same_but_clock (MouseDown e) (MouseDown e') = (e' = e\<lparr>dateNow := dateNow e'\<rparr>)"
| "same_but_clock (MouseMove e) (MouseMove e') = (e' = e\<lparr>dateNow := dateNow e'\<rparr>)"
| "same_but_clock MouseUp MouseUp = True"
| "same_but_clock MouseOut MouseOut = True"
| "same_but_clock ev ev' = False"

section \<open>Properties of rounding\<close>


lemma round_even_of_int [simp]: "round_even (of_int k) = k"
  by (simp add: round_even_def)












lemma round_double_unfold:
  "x \<noteq> 0 \<Longrightarrow>
   round_double x =
     of_int (round_even (x / 2 powr of_int (double_exp x - 52))) *
       2 powr of_int (double_exp x - 52)"
  by (simp add: round_double_def Let_def)









lemma powr_neg_nat: "(2::real) powr of_int (- int p) = 1 / 2 ^ p"
  by (simp add: powr_minus powr_realpow inverse_eq_divide)



lemma round_double_dyadic:
  assumes "\<bar>m\<bar> < 2 ^ 53" and "p \<le> 1074"
  shows "round_double (of_int m / 2 ^ p) = of_int m / 2 ^ p"
proof (cases "m = 0")
  case True
  then show ?thesis by (simp add: round_double_def)
next
  case False
  let ?x = "of_int m / 2 ^ p :: real"
  from False have nz: "?x \<noteq> 0" by simp
  have ax: "\<bar>?x\<bar> = of_int \<bar>m\<bar> / 2 ^ p" by simp
  have "of_int \<bar>m\<bar> < (2 ^ 53 :: real)"
    using assms(1) by (metis of_int_less_iff of_int_numeral of_int_power)
  then have "\<bar>?x\<bar> < 2 ^ 53 / 2 ^ p"
    unfolding ax by (simp add: divide_strict_right_mono)
  also have "\<dots> = 2 powr of_int (53 - int p)"
    by (simp add: powr_real_of_int powr_diff field_simps powr_add [symmetric])
       (simp add: powr_diff powr_realpow)
  finally have "log 2 \<bar>?x\<bar> < of_int (53 - int p)"
    using nz by (simp add: log_less_iff)
  then have "\<lfloor>log 2 \<bar>?x\<bar>\<rfloor> \<le> 52 - int p" by linarith
  with assms(2) have e: "double_exp ?x \<le> 52 - int p"
    by (simp add: double_exp_def)
  define k where "k = nat (52 - int p - double_exp ?x)"
  from e have k: "int k = 52 - int p - double_exp ?x" by (simp add: k_def)
  have "double_exp ?x - 52 = - int (p + k)"
    by (simp add: k)
  then have "(2::real) powr of_int (double_exp ?x - 52) = 2 powr of_int (- int (p + k))"
    by (simp only:)
  also have "\<dots> = 1 / (2 ^ p * 2 ^ k)"
    by (simp only: powr_neg_nat power_add)
  finally have u: "(2::real) powr of_int (double_exp ?x - 52) = 1 / (2 ^ p * 2 ^ k)" .
  have "?x / (1 / (2 ^ p * 2 ^ k)) = of_int (m * 2 ^ k)" by simp
  then have "round_even (?x / (1 / (2 ^ p * 2 ^ k))) = m * 2 ^ k"
    by (simp only: round_even_of_int)
  then show ?thesis
    by (simp only: round_double_unfold [OF nz] u) simp
qed

lemma round_double_examples:
  "round_double 100 = 100" "round_double (5 / 2) = 5 / 2" "round_double (11 / 32) = 11 / 32"
proof -
  show "round_double 100 = 100" using round_double_dyadic [of 100 0] by simp
  show "round_double (5 / 2) = 5 / 2" using round_double_dyadic [of 5 1] by simp
  show "round_double (11 / 32) = 11 / 32" using round_double_dyadic [of 11 5] by simp
qed










section \<open>Properties of the history\<close>

lemma saveState_Returns:
  assumes "- 1 \<le> historyStep s"
  shows "saveState s = Returns (
     let h = take (nat (historyStep s + 1)) (history s) @ [toDataURL (canvas s)]
     in if length h > 50 then s\<lparr>historyStep := historyStep s, history := tl h\<rparr>
        else s\<lparr>historyStep := historyStep s + 1, history := h\<rparr>)"
  using assms by (auto simp: saveState_def Let_def)

lemma undone_state_history:
  "historyStep undone_state = 0"
  "history undone_state =
     [toDataURL (black_canvas 1200 600), toDataURL (black_canvas 1200 600)]"
  "canvas undone_state = black_canvas 1200 600"
  by (simp_all add: undone_state_def page_loaded_def script_start_def saveState_def
        undoBtn_click_def Let_def)

text \<open>
  Claim C1. When the cursor is not at the last entry (it is \<open>-1\<close> or indexes an entry
  before the last), \<^verbatim>\<open>saveState\<close> returns, the new history is the entries up to and
  including the cursor followed by a snapshot of the current surface (less the oldest entry
  if that makes more than 50), the cursor indexes the last entry, which is that snapshot,
  and the entries formerly after the cursor are gone: with at most 50 entries before, the
  history is exactly the kept prefix and the snapshot, and the cursor has advanced by one.
\<close>

theorem saveState_truncates_redo:
  assumes "- 1 \<le> historyStep s" and "historyStep s < int (length (history s)) - 1"
  shows "\<exists>s'. saveState s = Returns s' \<and>
           history s' =
             (let h = take (nat (historyStep s + 1)) (history s) @ [toDataURL (canvas s)]
              in if length h > 50 then tl h else h) \<and>
           historyStep s' = int (length (history s')) - 1 \<and>
           last (history s') = toDataURL (canvas s) \<and>
           (length (history s) \<le> 50 \<longrightarrow>
              history s' = take (nat (historyStep s + 1)) (history s) @ [toDataURL (canvas s)] \<and>
              historyStep s' = historyStep s + 1 \<and>
              length (history s') = nat (historyStep s + 2))"
proof -
  let ?h = "take (nat (historyStep s + 1)) (history s) @ [toDataURL (canvas s)]"
  let ?s' = "state_of (saveState s)"
  have ret: "saveState s = Returns ?s'"
    using assms(1) by (simp add: saveState_Returns)
  have hist: "history ?s' = (if length ?h > 50 then tl ?h else ?h)"
    using assms(1) by (simp add: saveState_Returns Let_def)
  have len: "length ?h = nat (historyStep s + 2)"
    using assms by (simp add: min_def) linarith
  have step: "historyStep ?s' = int (length (history ?s')) - 1"
    using assms by (auto simp: saveState_Returns Let_def min_def)
  have lst: "last (history ?s') = toDataURL (canvas s)"
  proof (cases "length ?h > 50")
    case True
    then have "take (nat (historyStep s + 1)) (history s) \<noteq> []"
      by auto
    then have "tl ?h = tl (take (nat (historyStep s + 1)) (history s)) @ [toDataURL (canvas s)]"
      by simp
    moreover from True hist have "history ?s' = tl ?h"
      by (simp only: if_True)
    ultimately show ?thesis by simp
  next
    case False
    with hist have "history ?s' = ?h"
      by (simp only: if_False)
    then show ?thesis by simp
  qed
  have small: "length (history s) \<le> 50 \<longrightarrow>
      history ?s' = ?h \<and> historyStep ?s' = historyStep s + 1 \<and>
      length (history ?s') = nat (historyStep s + 2)"
    using assms by (auto simp: saveState_Returns Let_def min_def)
  from ret hist step lst small show ?thesis
    unfolding Let_def by blast
qed

theorem saveState_truncates_redo_witness:
  "- 1 \<le> historyStep undone_state \<and>
   historyStep undone_state < int (length (history undone_state)) - 1 \<and>
   (\<exists>s'. saveState undone_state = Returns s' \<and>
         history s' = [toDataURL (black_canvas 1200 600), toDataURL (black_canvas 1200 600)] \<and>
         historyStep s' = 1)"
proof -
  have h1: "- 1 \<le> historyStep undone_state"
    by (simp add: undone_state_history)
  have h2: "historyStep undone_state < int (length (history undone_state)) - 1"
    by (simp add: undone_state_history)
  from saveState_truncates_redo [OF h1 h2] h1 h2 show ?thesis
    by (auto simp: undone_state_history)
qed

subsection \<open>The bound of 50 entries\<close>

lemma fillRect_history [simp]:
  "history (fillRect s x y w h) = history s"
  "historyStep (fillRect s x y w h) = historyStep s"
  by (simp_all add: fillRect_def)

lemma spray_loop_history [simp]:
  "history (spray_loop rnd x y n d i s) = history s \<and>
   historyStep (spray_loop rnd x y n d i s) = historyStep s"
proof (induction rnd x y n d i s rule: spray_loop.induct)
  case (1 rnd x y n d i s)
  show ?case
  proof (cases "i < d")
    case True
    with "1.IH" show ?thesis
      by (subst (1 2) spray_loop.simps) (simp add: Let_def)
  next
    case False
    then show ?thesis
      by (subst (1 2) spray_loop.simps) simp
  qed
qed

lemma draw_history [simp]:
  "history (state_of (draw s e x y)) = history s"
  "historyStep (state_of (draw s e x y)) = historyStep s"
  by (simp_all add: draw_def drawRound_def drawSquare_def drawSpray_def drawRainbow_def
        Let_def split: option.splits)

lemma saveState_inv:
  assumes "history_inv s"
  shows "saveState s = Returns (state_of (saveState s))"
    and "history_inv (state_of (saveState s))"
    and "historyStep (state_of (saveState s)) = int (length (history (state_of (saveState s)))) - 1"
  using assms by (auto simp: history_inv_def saveState_Returns Let_def min_def)

lemma undoBtn_click_inv:
  "history_inv s \<Longrightarrow> history_inv (undoBtn_click s)"
  by (auto simp: history_inv_def undoBtn_click_def Let_def)

lemma history_inv_cong:
  "history s' = history s \<Longrightarrow> historyStep s' = historyStep s \<Longrightarrow>
   history_inv s' = history_inv s"
  by (simp add: history_inv_def)

lemma image_loaded_history [simp]:
  "history (image_loaded s k) = history s"
  "historyStep (image_loaded s k) = historyStep s"
  by (simp_all add: image_loaded_def img_onload_def drawImage_def clearRect_def)

lemma mousedown_inv:
  assumes "history_inv s"
  shows "history_inv (state_of (mousedown s e))"
proof -
  let ?s0 = "s\<lparr>isDrawing := True\<rparr>"
  have inv0: "history_inv ?s0"
    using assms by (simp add: history_inv_def)
  from saveState_inv(1) [OF inv0]
  have "state_of (mousedown s e) =
          state_of (draw (state_of (saveState ?s0)) e (fst (getMousePos e)) (snd (getMousePos e)))"
    by (simp add: mousedown_def Let_def del: state_of.simps) (metis and_then.simps(1))
  with saveState_inv(2) [OF inv0] show ?thesis
    by (simp add: history_inv_cong [of "state_of (draw _ _ _ _)"])
qed


lemma state_of_and_then_Returns:
  "r = Returns s1 \<Longrightarrow> state_of (and_then r f) = state_of (f s1)"
  by simp

lemma fillBtn_click_inv:
  assumes "history_inv s"
  shows "history_inv (state_of (fillBtn_click s))"
proof -
  from saveState_inv(1) [OF assms]
  have "history (state_of (fillBtn_click s)) = history (state_of (saveState s)) \<and>
        historyStep (state_of (fillBtn_click s)) = historyStep (state_of (saveState s))"
    unfolding fillBtn_click_def
    by (subst (1 2) state_of_and_then_Returns [where ?s1.0 = "state_of (saveState s)"])
       (simp_all add: Let_def)
  with saveState_inv(2) [OF assms] show ?thesis
    by (simp add: history_inv_def)
qed

lemma clearBtn_click_inv:
  assumes "history_inv s"
  shows "history_inv (state_of (clearBtn_click s confirmed))"
proof (cases confirmed)
  case True
  from saveState_inv(1) [OF assms]
  have "history (state_of (clearBtn_click s True)) = history (state_of (saveState s)) \<and>
        historyStep (state_of (clearBtn_click s True)) = historyStep (state_of (saveState s))"
    unfolding clearBtn_click_def
    by (simp only: if_True)
       (subst (1 2) state_of_and_then_Returns [where ?s1.0 = "state_of (saveState s)"],
        simp_all add: Let_def)
  with saveState_inv(2) [OF assms] True show ?thesis
    by (simp add: history_inv_def)
next
  case False
  with assms show ?thesis by (simp add: clearBtn_click_def)
qed

lemma mousemove_inv:
  "history_inv s \<Longrightarrow> history_inv (state_of (mousemove s e))"
  by (simp add: mousemove_def Let_def history_inv_def)

lemma dispatch_inv:
  "history_inv s \<Longrightarrow> history_inv (state_of (dispatch s ev))"
proof (cases ev)
  case (MouseDown e)
  assume "history_inv s"
  with MouseDown show ?thesis by (simp add: mousedown_inv)
next
  case (MouseMove e)
  assume "history_inv s"
  with MouseMove show ?thesis by (simp add: mousemove_inv)
next
  case (ClearClick b)
  assume "history_inv s"
  with ClearClick show ?thesis by (simp add: clearBtn_click_inv)
next
  case FillClick
  assume "history_inv s"
  with FillClick show ?thesis by (simp add: fillBtn_click_inv)
next
  case UndoClick
  assume "history_inv s"
  with UndoClick show ?thesis by (simp add: undoBtn_click_inv)
qed (simp_all add: history_inv_def mouseup_def mouseout_def colorPicker_input_def
       brushSizeSlider_input_def brushTypeSelect_change_def eraserBtn_click_def Let_def)

lemma run_inv:
  "history_inv s \<Longrightarrow> history_inv (run s evs)"
  by (induction evs arbitrary: s) (simp_all add: dispatch_inv)

lemma page_loaded_inv:
  "history_inv (page_loaded c)"
  by (simp add: page_loaded_def script_start_def saveState_def history_inv_def Let_def)

lemma tl_snoc: "xs \<noteq> [] \<Longrightarrow> tl (xs @ [a]) = tl xs @ [a]"
  by (cases xs) simp_all

text \<open>
  Claim C2. A history of at most 50 entries has at most 50 after \<^verbatim>\<open>saveState\<close> and after
  undo; well-formedness (at most 50 entries, cursor \<open>-1\<close> or inside) is kept by both, and
  \<^verbatim>\<open>saveState\<close> returns. When the history is full and the cursor on its last entry, the
  push drops the oldest entry, appends the snapshot, and the cursor, incremented and then
  decremented, is 49 again and indexes the snapshot just appended. From page load on, the
  bound holds after every sequence of events.
\<close>

theorem history_bounded:
  "(length (history s) \<le> 50 \<longrightarrow>
      length (history (state_of (saveState s))) \<le> 50 \<and>
      length (history (undoBtn_click s)) \<le> 50) \<and>
   (history_inv s \<longrightarrow>
      (\<exists>s'. saveState s = Returns s' \<and> history_inv s') \<and> history_inv (undoBtn_click s)) \<and>
   (length (history s) = 50 \<and> historyStep s = 49 \<longrightarrow>
      (\<exists>s'. saveState s = Returns s' \<and>
            history s' = tl (history s) @ [toDataURL (canvas s)] \<and>
            length (history s') = 50 \<and>
            historyStep s' = 49 \<and>
            history s' ! nat (historyStep s') = toDataURL (canvas s))) \<and>
   length (history (run (page_loaded c) evs)) \<le> 50"
proof (intro conjI impI)
  assume "length (history s) \<le> 50"
  then show "length (history (state_of (saveState s))) \<le> 50"
    by (auto simp: saveState_def Let_def)
next
  assume "length (history s) \<le> 50"
  then show "length (history (undoBtn_click s)) \<le> 50"
    by (simp add: undoBtn_click_def Let_def)
next
  assume "history_inv s"
  then show "\<exists>s'. saveState s = Returns s' \<and> history_inv s'"
    using saveState_inv(1,2) by blast
next
  assume "history_inv s"
  then show "history_inv (undoBtn_click s)"
    by (rule undoBtn_click_inv)
next
  assume a: "length (history s) = 50 \<and> historyStep s = 49"
  then have ne: "history s \<noteq> []" by auto
  let ?s' = "s\<lparr>historyStep := 49, history := tl (history s) @ [toDataURL (canvas s)]\<rparr>"
  from a have "saveState s = Returns ?s'"
    by (simp add: saveState_Returns Let_def tl_snoc [OF ne])
  moreover from a have "history ?s' ! nat (historyStep ?s') = toDataURL (canvas s)"
    by (simp add: nth_append)
  moreover from a have "length (history ?s') = 50" by simp
  ultimately show "\<exists>s'. saveState s = Returns s' \<and>
            history s' = tl (history s) @ [toDataURL (canvas s)] \<and>
            length (history s') = 50 \<and>
            historyStep s' = 49 \<and>
            history s' ! nat (historyStep s') = toDataURL (canvas s)"
    by simp
next
  have "history_inv (run (page_loaded c) evs)"
    by (rule run_inv [OF page_loaded_inv])
  then show "length (history (run (page_loaded c) evs)) \<le> 50"
    by (simp add: history_inv_def)
qed

lemma full_state_history:
  "length (history full_state) = 50" "historyStep full_state = 49"
  by (simp_all add: full_state_def)

theorem history_bounded_witness:
  "history_inv full_state \<and> length (history full_state) = 50 \<and>
   historyStep full_state = 49 \<and>
   (\<exists>s'. saveState full_state = Returns s' \<and> history_inv s' \<and>
         length (history s') = 50 \<and> historyStep s' = 49 \<and>
         history s' ! 49 = toDataURL (black_canvas 1200 600))"
proof -
  have inv: "history_inv full_state"
    by (simp add: history_inv_def full_state_history)
  have c: "canvas full_state = black_canvas 1200 600"
    by (simp add: full_state_def script_start_def)
  from history_bounded [of full_state] inv full_state_history c show ?thesis
    by (metis nat_numeral result.inject(1))
qed

subsection \<open>Consecutive pushes\<close>

lemma pushes_append:
  assumes "historyStep s = int (length (history s)) - 1"
    and "length (history s) + n \<le> 50"
  shows "pushes n s =
           Returns (s\<lparr>historyStep := historyStep s + int n,
                      history := history s @ replicate n (toDataURL (canvas s))\<rparr>)"
  using assms
proof (induction n arbitrary: s)
  case 0
  then show ?case by simp
next
  case (Suc n)
  let ?s1 = "s\<lparr>historyStep := historyStep s + 1,
                history := history s @ [toDataURL (canvas s)]\<rparr>"
  from Suc.prems have "saveState s = Returns ?s1"
    by (simp add: saveState_Returns Let_def)
  moreover from Suc.prems have "pushes n ?s1 =
      Returns (?s1\<lparr>historyStep := historyStep ?s1 + int n,
                   history := history ?s1 @ replicate n (toDataURL (canvas ?s1))\<rparr>)"
    by (intro Suc.IH) simp_all
  ultimately show ?case
    by (simp add: replicate_app_Cons_same)
qed

text \<open>
  Claim C9. Starting from an empty history with cursor \<open>-1\<close>, \<open>n\<close> consecutive calls of
  \<^verbatim>\<open>saveState\<close> with \<open>0 < n < 50\<close> all return and leave exactly \<open>n\<close> entries and the
  cursor at \<open>n - 1\<close>.
\<close>

theorem pushes_below_cap:
  assumes "0 < n" and "n < 50" and "history s = []" and "historyStep s = - 1"
  shows "\<exists>s'. pushes n s = Returns s' \<and> length (history s') = n \<and>
              historyStep s' = int n - 1"
  using assms by (simp add: pushes_append)

theorem pushes_below_cap_witness:
  "(0::nat) < 3 \<and> (3::nat) < 50 \<and> history (script_start (black_canvas 1200 600)) = [] \<and>
   historyStep (script_start (black_canvas 1200 600)) = - 1 \<and>
   (\<exists>s'. pushes 3 (script_start (black_canvas 1200 600)) = Returns s' \<and>
         length (history s') = 3 \<and> historyStep s' = 2)"
proof -
  have h: "history (script_start (black_canvas 1200 600)) = []"
     "historyStep (script_start (black_canvas 1200 600)) = - 1"
    by (simp_all add: script_start_def)
  from pushes_below_cap [of 3 "script_start (black_canvas 1200 600)"] h show ?thesis
    by simp
qed

section \<open>Whole-surface operations after erasing\<close>

lemma rect_covers_full:
  "rect_covers 0 0 (real w) (real h) i j \<longleftrightarrow> i < w \<and> j < h"
  by (auto simp: rect_covers_def)

lemma erased_state_fields:
  "globalCompositeOperation erased_state = DestinationOut"
  "historyStep erased_state = 1"
  "history erased_state = [toDataURL (black_canvas 1200 600), toDataURL (black_canvas 1200 600)]"
  "width (canvas erased_state) = 1200"
  "height (canvas erased_state) = 600"
  "currentColor erased_state = Rgb 255 255 255"
  "pendingImages erased_state = []"
  by (simp_all add: erased_state_def page_loaded_def script_start_def saveState_def Let_def
        eraserBtn_click_def mousedown_def mouseup_def draw_def drawRound_def paint_def
        black_canvas_def getMousePos_def click_at_def round_double_examples)

lemma erased_state_outside:
  "\<not> (i < 1200 \<and> j < 600) \<Longrightarrow> pixel (canvas erased_state) i j = Transparent"
  by (auto simp add: erased_state_def page_loaded_def script_start_def saveState_def Let_def
        eraserBtn_click_def mousedown_def mouseup_def draw_def drawRound_def paint_def
        black_canvas_def getMousePos_def click_at_def round_double_examples)

lemma erased_state_erased:
  "pixel (canvas erased_state) 100 100 = Transparent"
  "pixel (canvas erased_state) 0 0 = Opaque (Rgb 0 0 0)"
  by (simp_all add: erased_state_def page_loaded_def script_start_def saveState_def Let_def
        eraserBtn_click_def mousedown_def mouseup_def draw_def drawRound_def paint_def
        black_canvas_def getMousePos_def click_at_def disc_covers_def power2_eq_square
        round_double_examples)

lemma fillBtn_click_pixel:
  assumes "- 1 \<le> historyStep s"
  shows "pixel (canvas (state_of (fillBtn_click s))) i j =
           (if i < width (canvas s) \<and> j < height (canvas s)
            then composite (globalCompositeOperation s) (Opaque (currentColor s))
                   (pixel (canvas s) i j)
            else pixel (canvas s) i j)"
  using assms
  by (auto simp: fillBtn_click_def saveState_Returns Let_def fillRect_def paint_def
        rect_covers_full)

lemma img_onload_pixel:
  "pixel (canvas (img_onload s img)) i j =
     (if i < width (canvas s) \<and> j < height (canvas s)
      then (if i < width (decoded img) \<and> j < height (decoded img)
            then composite (globalCompositeOperation s) (pixel (decoded img) i j) Transparent
            else Transparent)
      else pixel (canvas s) i j)"
  by (auto simp: img_onload_def drawImage_def clearRect_def rect_covers_full)

text \<open>
  Claim C5, evaluated where it fails. The user switches the eraser on, clicks once on the
  canvas and presses the fill button. \<^verbatim>\<open>draw\<close> has left the context in
  \<^verbatim>\<open>'destination-out'\<close> and the fill handler sets only \<^verbatim>\<open>fillStyle\<close>: the
  rectangle erases. The configured colour is white; no pixel is white, every pixel is
  transparent.
\<close>

theorem fill_after_eraser_clears:
  "currentColor (state_of (fillBtn_click erased_state)) = Rgb 255 255 255 \<and>
   pixel (canvas (state_of (fillBtn_click erased_state))) 0 0 \<noteq>
     Opaque (currentColor (state_of (fillBtn_click erased_state))) \<and>
   (\<forall>i j. pixel (canvas (state_of (fillBtn_click erased_state))) i j = Transparent)"
proof -
  have col: "currentColor (state_of (fillBtn_click erased_state)) = Rgb 255 255 255"
    by (simp add: fillBtn_click_def saveState_Returns erased_state_fields Let_def
          fillRect_def)
  have px: "pixel (canvas (state_of (fillBtn_click erased_state))) i j = Transparent" for i j
    using erased_state_outside [of i j]
    by (simp add: fillBtn_click_pixel erased_state_fields)
  from col px show ?thesis by simp
qed

text \<open>
  What undo does: nothing when the cursor is at most 0; otherwise the cursor goes back by
  one and the entry it then indexes is handed to an image. When that image has loaded and
  the context composites with \<^verbatim>\<open>'source-over'\<close>, the canvas shows the entry.
\<close>

lemma undoBtn_click_noop:
  "historyStep s \<le> 0 \<Longrightarrow> undoBtn_click s = s"
  by (simp add: undoBtn_click_def)

lemma undoBtn_click_steps_back:
  assumes "0 < historyStep s" and "historyStep s \<le> int (length (history s))"
  shows "undoBtn_click s =
           s\<lparr>historyStep := historyStep s - 1,
             pendingImages := pendingImages s @ [history s ! nat (historyStep s - 1)]\<rparr>"
  using assms by (simp add: undoBtn_click_def Let_def)

lemma img_onload_restores:
  assumes "globalCompositeOperation s = SourceOver"
    and "width (decoded img) = width (canvas s)" and "height (decoded img) = height (canvas s)"
    and "i < width (canvas s)" and "j < height (canvas s)"
  shows "pixel (canvas (img_onload s img)) i j = pixel (decoded img) i j"
  using assms by (cases "pixel (decoded img) i j") (simp_all add: img_onload_pixel)

text \<open>
  Claim C3, evaluated where it fails. The user switches the eraser on, clicks once on the
  canvas and presses undo, and the image loads. The cursor is at entry 0, whose pixel
  (0, 0) is black, but \<^verbatim>\<open>drawImage\<close> ran in \<^verbatim>\<open>'destination-out'\<close> on the cleared
  canvas: every pixel is transparent, the entry has not been restored.
\<close>

theorem undo_after_eraser_blank:
  "historyStep (run erased_state [UndoClick, ImageLoaded 0]) = 0 \<and>
   pixel (decoded (history (run erased_state [UndoClick, ImageLoaded 0]) ! 0)) 0 0 =
     Opaque (Rgb 0 0 0) \<and>
   (\<forall>i j. pixel (canvas (run erased_state [UndoClick, ImageLoaded 0])) i j = Transparent)"
proof -
  let ?u = "erased_state\<lparr>historyStep := 0,
              pendingImages := [toDataURL (black_canvas 1200 600)]\<rparr>"
  have u: "undoBtn_click erased_state = ?u"
    by (simp add: undoBtn_click_steps_back erased_state_fields)
  have r: "run erased_state [UndoClick, ImageLoaded 0] =
             img_onload (?u\<lparr>pendingImages := []\<rparr>) (toDataURL (black_canvas 1200 600))"
    by (simp add: u image_loaded_def)
  have step: "historyStep (run erased_state [UndoClick, ImageLoaded 0]) = 0"
    unfolding r by (simp add: img_onload_def drawImage_def clearRect_def)
  have hist: "history (run erased_state [UndoClick, ImageLoaded 0]) = history erased_state"
    unfolding r by (simp add: img_onload_def drawImage_def clearRect_def)
  have entry: "pixel (decoded (history (run erased_state [UndoClick, ImageLoaded 0]) ! 0)) 0 0 =
     Opaque (Rgb 0 0 0)"
    unfolding hist by (simp add: erased_state_fields toDataURL_def black_canvas_def)
  have px: "pixel (canvas (run erased_state [UndoClick, ImageLoaded 0])) i j = Transparent"
    for i j
    using erased_state_outside [of i j]
    unfolding r
    by (simp add: img_onload_pixel erased_state_fields toDataURL_def black_canvas_def)
  from step entry px show ?thesis by simp
qed

section \<open>The stroke, undo, stroke scenario\<close>

lemma run_append: "run s (xs @ ys) = run (run s xs) ys"
  by (induction xs arbitrary: s) simp_all

lemma run_moves_history:
  "history (run s (map MouseMove ms)) = history s \<and>
   historyStep (run s (map MouseMove ms)) = historyStep s"
  by (induction ms arbitrary: s) (simp_all add: mousemove_def Let_def)

lemma run_loads_history:
  "history (run s (map ImageLoaded ks)) = history s \<and>
   historyStep (run s (map ImageLoaded ks)) = historyStep s"
  by (induction ks arbitrary: s) simp_all

lemma mousedown_history:
  assumes "- 1 \<le> historyStep s"
  shows "history (state_of (mousedown s e)) = history (state_of (saveState s))"
    and "historyStep (state_of (mousedown s e)) = historyStep (state_of (saveState s))"
  using assms by (simp_all add: mousedown_def saveState_Returns Let_def)

lemma scenario_history:
  assumes "history s = [h0]" and "historyStep s = 0"
  shows "history (run s (MouseDown a # map MouseMove moves @ [MouseUp])) =
           [h0, toDataURL (canvas s)]" (is "history ?sA = _")
    and "historyStep (run s (MouseDown a # map MouseMove moves @ [MouseUp])) = 1"
    and "history (run (run s (MouseDown a # map MouseMove moves @ [MouseUp]))
                   (UndoClick # map ImageLoaded ks)) = [h0, toDataURL (canvas s)]"
        (is "history ?sU = _")
    and "historyStep (run (run s (MouseDown a # map MouseMove moves @ [MouseUp]))
                   (UndoClick # map ImageLoaded ks)) = 0"
    and "history (run (run (run s (MouseDown a # map MouseMove moves @ [MouseUp]))
                   (UndoClick # map ImageLoaded ks)) [MouseDown b]) =
           [h0, toDataURL (canvas (run (run s (MouseDown a # map MouseMove moves @ [MouseUp]))
                   (UndoClick # map ImageLoaded ks)))]"
    and "historyStep (run (run (run s (MouseDown a # map MouseMove moves @ [MouseUp]))
                   (UndoClick # map ImageLoaded ks)) [MouseDown b]) = 1"
proof -
  have d: "history (state_of (mousedown s a)) = [h0, toDataURL (canvas s)]"
          "historyStep (state_of (mousedown s a)) = 1"
    using assms by (simp_all add: mousedown_history saveState_Returns Let_def)
  show A: "history ?sA = [h0, toDataURL (canvas s)]"
    by (simp add: run_append run_moves_history mouseup_def d)
  show A': "historyStep ?sA = 1"
    by (simp add: run_append run_moves_history mouseup_def d)
  have u: "history (undoBtn_click ?sA) = history ?sA" "historyStep (undoBtn_click ?sA) = 0"
    using A A' by (simp_all add: undoBtn_click_def Let_def del: run.simps)
  have U0: "?sU = run (undoBtn_click ?sA) (map ImageLoaded ks)"
    by simp
  show U: "history ?sU = [h0, toDataURL (canvas s)]"
    unfolding U0 using A u by (simp add: run_loads_history del: run.simps)
  show U': "historyStep ?sU = 0"
    unfolding U0 using u by (simp add: run_loads_history del: run.simps)
  have B0: "run ?sU [MouseDown b] = state_of (mousedown ?sU b)"
    by simp
  show "history (run ?sU [MouseDown b]) = [h0, toDataURL (canvas ?sU)]"
    unfolding B0 using U U'
    by (simp add: mousedown_history saveState_Returns Let_def del: run.simps)
  show "historyStep (run ?sU [MouseDown b]) = 1"
    unfolding B0 using U U'
    by (simp add: mousedown_history saveState_Returns Let_def del: run.simps)
qed

text \<open>
  Claim C4, as the code has it. From a history holding the initial entry alone, with the
  cursor on it: after stroke A (pointer down, any number of move samples, pointer up) the
  history is the initial entry and the snapshot taken at A's pointer down, cursor 1. Undo
  (whether or not its image has loaded) keeps both entries and puts the cursor on 0. The
  push of stroke B then truncates the entry after the cursor, which is A's, and appends
  B's snapshot: the history holds exactly two entries, the initial one and B's.
\<close>

theorem stroke_undo_stroke_history:
  assumes "history s = [h0]" and "historyStep s = 0"
  shows "(let sA = run s (MouseDown a # map MouseMove moves @ [MouseUp]);
              sU = run sA (UndoClick # map ImageLoaded ks);
              sB = run sU [MouseDown b]
          in history sA = [h0, toDataURL (canvas s)] \<and> historyStep sA = 1 \<and>
             history sU = [h0, toDataURL (canvas s)] \<and> historyStep sU = 0 \<and>
             history sB = [h0, toDataURL (canvas sU)] \<and> historyStep sB = 1 \<and>
             length (history sB) = 2)"
  unfolding Let_def
  using scenario_history [OF assms] by simp

lemma page_loaded_history:
  "history (page_loaded c) = [toDataURL c]" "historyStep (page_loaded c) = 0"
  "canvas (page_loaded c) = c"
  by (simp_all add: page_loaded_def script_start_def saveState_def Let_def)

theorem stroke_undo_stroke_history_witness:
  "history (page_loaded (black_canvas 1200 600)) = [toDataURL (black_canvas 1200 600)] \<and>
   historyStep (page_loaded (black_canvas 1200 600)) = 0 \<and>
   history (run (page_loaded (black_canvas 1200 600))
              (MouseDown click_at # map MouseMove [click_at] @ [MouseUp])) =
     [toDataURL (black_canvas 1200 600), toDataURL (black_canvas 1200 600)] \<and>
   length (history (run (run (run (page_loaded (black_canvas 1200 600))
              (MouseDown click_at # map MouseMove [click_at] @ [MouseUp]))
              (UndoClick # map ImageLoaded [0])) [MouseDown click_at])) = 2"
proof -
  have h: "history (page_loaded (black_canvas 1200 600)) = [toDataURL (black_canvas 1200 600)]"
    "historyStep (page_loaded (black_canvas 1200 600)) = 0"
    by (simp_all add: page_loaded_history)
  from stroke_undo_stroke_history [OF h, of click_at "[click_at]" "[0]" click_at] h
  show ?thesis
    unfolding Let_def by (simp add: page_loaded_history del: run.simps)
qed

text \<open>
  The scenario as the claim words it, on a full-size canvas: stroke A with two samples,
  undo, its image loaded, stroke B's pointer down. The history does not hold three entries.
\<close>

theorem stroke_undo_stroke_counterexample:
  "length (history (run (page_loaded (black_canvas 1200 600))
     [MouseDown click_at, MouseMove click_at, MouseUp, UndoClick, ImageLoaded 0,
      MouseDown click_at])) = 2 \<and>
   length (history (run (page_loaded (black_canvas 1200 600))
     [MouseDown click_at, MouseMove click_at, MouseUp, UndoClick, ImageLoaded 0,
      MouseDown click_at])) \<noteq> 3"
proof -
  let ?s = "page_loaded (black_canvas 1200 600)"
  have split: "run ?s [MouseDown click_at, MouseMove click_at, MouseUp, UndoClick,
                       ImageLoaded 0, MouseDown click_at] =
      run (run (run ?s (MouseDown click_at # map MouseMove [click_at] @ [MouseUp]))
             (UndoClick # map ImageLoaded [0])) [MouseDown click_at]"
    by (simp only: run.simps list.map append.simps)
  have "length (history (run (run (run ?s (MouseDown click_at # map MouseMove [click_at] @ [MouseUp]))
             (UndoClick # map ImageLoaded [0])) [MouseDown click_at])) = 2"
    by (subst scenario_history(5) [where ?h0.0 = "toDataURL (black_canvas 1200 600)"])
       (simp_all add: page_loaded_history)
  then show ?thesis
    unfolding split by simp
qed


section \<open>The spray stamp\<close>















section \<open>Eraser mode\<close>

lemma paint_DestinationOut_color:
  "paint DestinationOut col cov c = paint DestinationOut col' cov c"
  by (simp add: paint_def cong: if_cong)

lemma fillRect_currentColor:
  "fillRect (s\<lparr>currentColor := c\<rparr>) x y w h = (fillRect s x y w h)\<lparr>currentColor := c\<rparr>"
  by (simp add: fillRect_def)

lemma spray_loop_currentColor:
  "spray_loop rnd x y n d i (s\<lparr>currentColor := c\<rparr>) =
     (spray_loop rnd x y n d i s)\<lparr>currentColor := c\<rparr>"
proof (induction rnd x y n d i s rule: spray_loop.induct)
  case (1 rnd x y n d i s)
  show ?case
  proof (cases "i < d")
    case True
    define ox where
      "ox = round_double (round_double (rnd (nat (2 * i)) - 1 / 2) * real_of_int n)"
    define oy where
      "oy = round_double (round_double (rnd (nat (2 * i + 1)) - 1 / 2) * real_of_int n)"
    define dist where
      "dist = round_double (sqrt (round_double
                (round_double (ox * ox) + round_double (oy * oy))))"
    define s1 where "s1 = (if dist \<le> round_double (real_of_int n / 2)
                           then fillRect s (round_double (x + ox)) (round_double (y + oy)) 1 1
                           else s)"
    have step: "spray_loop rnd x y n d i s = spray_loop rnd x y n d (i + 1) s1"
      by (subst spray_loop.simps) (simp add: True Let_def s1_def dist_def ox_def oy_def)
    have step': "spray_loop rnd x y n d i (s\<lparr>currentColor := c\<rparr>) =
                 spray_loop rnd x y n d (i + 1) (s1\<lparr>currentColor := c\<rparr>)"
      by (subst spray_loop.simps)
         (simp add: True Let_def s1_def dist_def ox_def oy_def fillRect_currentColor)
    have "spray_loop rnd x y n d (i + 1) (s1\<lparr>currentColor := c\<rparr>) =
          (spray_loop rnd x y n d (i + 1) s1)\<lparr>currentColor := c\<rparr>"
      unfolding s1_def by (rule "1.IH" [OF True ox_def oy_def dist_def])
    then show ?thesis
      unfolding step step' .
  next
    case False
    then show ?thesis
      by (subst (1 2) spray_loop.simps) simp
  qed
qed

lemma fillRect_erases:
  "globalCompositeOperation s = DestinationOut \<Longrightarrow>
   globalCompositeOperation (fillRect s x y w h) = DestinationOut \<and>
   (pixel (canvas (fillRect s x y w h)) i j = pixel (canvas s) i j \<or>
    pixel (canvas (fillRect s x y w h)) i j = Transparent)"
  by (simp add: fillRect_def paint_def)

lemma spray_loop_erases:
  "globalCompositeOperation s = DestinationOut \<Longrightarrow>
   globalCompositeOperation (spray_loop rnd x y n d i s) = DestinationOut \<and>
   (pixel (canvas (spray_loop rnd x y n d i s)) a b = pixel (canvas s) a b \<or>
    pixel (canvas (spray_loop rnd x y n d i s)) a b = Transparent)"
proof (induction rnd x y n d i s rule: spray_loop.induct)
  case (1 rnd x y n d i s)
  show ?case
  proof (cases "i < d")
    case True
    define ox where
      "ox = round_double (round_double (rnd (nat (2 * i)) - 1 / 2) * real_of_int n)"
    define oy where
      "oy = round_double (round_double (rnd (nat (2 * i + 1)) - 1 / 2) * real_of_int n)"
    define dist where
      "dist = round_double (sqrt (round_double
                (round_double (ox * ox) + round_double (oy * oy))))"
    define s1 where "s1 = (if dist \<le> round_double (real_of_int n / 2)
                           then fillRect s (round_double (x + ox)) (round_double (y + oy)) 1 1
                           else s)"
    have step: "spray_loop rnd x y n d i s = spray_loop rnd x y n d (i + 1) s1"
      by (subst spray_loop.simps) (simp add: True Let_def s1_def dist_def ox_def oy_def)
    have s1: "globalCompositeOperation s1 = DestinationOut \<and>
              (pixel (canvas s1) a b = pixel (canvas s) a b \<or>
               pixel (canvas s1) a b = Transparent)"
      using "1.prems" fillRect_erases [OF "1.prems", of "round_double (x + ox)" "round_double (y + oy)" 1 1 a b]
      by (simp add: s1_def)
    then have gco: "globalCompositeOperation s1 = DestinationOut" by simp
    have "globalCompositeOperation (spray_loop rnd x y n d (i + 1) s1) = DestinationOut \<and>
          (pixel (canvas (spray_loop rnd x y n d (i + 1) s1)) a b = pixel (canvas s1) a b \<or>
           pixel (canvas (spray_loop rnd x y n d (i + 1) s1)) a b = Transparent)"
      using gco unfolding s1_def by (rule "1.IH" [OF True ox_def oy_def dist_def])
    with s1 show ?thesis
      unfolding step by auto
  next
    case False
    then show ?thesis
      using "1.prems" by (subst (1 2 3) spray_loop.simps) simp
  qed
qed

lemma drawRound_erases:
  assumes "globalCompositeOperation s = DestinationOut"
  shows "canvas (state_of (drawRound (s\<lparr>currentColor := c\<rparr>) x y)) =
           canvas (state_of (drawRound s x y))"
    and "globalCompositeOperation (state_of (drawRound s x y)) = DestinationOut"
    and "pixel (canvas (state_of (drawRound s x y))) i j = pixel (canvas s) i j \<or>
         pixel (canvas (state_of (drawRound s x y))) i j = Transparent"
  using assms
  by (auto simp: drawRound_def paint_def cong: if_cong split: option.splits)

lemma drawSquare_erases:
  assumes "globalCompositeOperation s = DestinationOut"
  shows "canvas (drawSquare (s\<lparr>currentColor := c\<rparr>) x y) = canvas (drawSquare s x y)"
    and "globalCompositeOperation (drawSquare s x y) = DestinationOut"
    and "pixel (canvas (drawSquare s x y)) i j = pixel (canvas s) i j \<or>
         pixel (canvas (drawSquare s x y)) i j = Transparent"
  using assms
  by (auto simp: drawSquare_def fillRect_def paint_def split: option.splits)

lemma drawSpray_erases:
  assumes "globalCompositeOperation s = DestinationOut"
  shows "canvas (drawSpray (s\<lparr>currentColor := c\<rparr>) rnd x y) = canvas (drawSpray s rnd x y)"
    and "globalCompositeOperation (drawSpray s rnd x y) = DestinationOut"
    and "pixel (canvas (drawSpray s rnd x y)) i j = pixel (canvas s) i j \<or>
         pixel (canvas (drawSpray s rnd x y)) i j = Transparent"
  using assms spray_loop_erases [OF assms]
  by (auto simp: drawSpray_def Let_def spray_loop_currentColor split: option.splits)

lemma drawRainbow_erases:
  assumes "globalCompositeOperation s = DestinationOut"
  shows "canvas (state_of (drawRainbow (s\<lparr>currentColor := c\<rparr>) t' x y)) =
           canvas (state_of (drawRainbow s t x y))"
    and "globalCompositeOperation (state_of (drawRainbow s t x y)) = DestinationOut"
    and "pixel (canvas (state_of (drawRainbow s t x y))) i j = pixel (canvas s) i j \<or>
         pixel (canvas (state_of (drawRainbow s t x y))) i j = Transparent"
  using assms
  by (auto simp: drawRainbow_def drawRound_def paint_def Let_def cong: if_cong
        split: option.splits)

lemma same_but_color_update:
  "same_but_color s (s\<lparr>currentColor := c, fillStyle := f\<rparr>)"
  by (simp add: same_but_color_def)

lemma same_but_color_canvas:
  assumes "same_but_color s s'"
  shows "canvas s' = canvas s" and "isEraser s' = isEraser s"
proof -
  from assms have eq: "s' = s\<lparr>currentColor := currentColor s', fillStyle := fillStyle s'\<rparr>"
    by (simp add: same_but_color_def)
  show "canvas s' = canvas s" by (subst eq) simp
  show "isEraser s' = isEraser s" by (subst eq) simp
qed

lemma same_outcome_state_of:
  "same_outcome r r' \<Longrightarrow> same_but_color (state_of r) (state_of r')"
  by (cases r; cases r') simp_all

lemma drawRound_related:
  assumes "globalCompositeOperation s = DestinationOut"
  shows "same_outcome (drawRound s x y) (drawRound (s\<lparr>currentColor := c, fillStyle := f\<rparr>) x y)"
  using assms
  by (simp add: drawRound_def same_but_color_def paint_DestinationOut_color [of f _ _ "fillStyle s"]
        split: option.splits)


lemma drawSquare_related:
  "same_but_color (drawSquare s x y) (drawSquare (s\<lparr>currentColor := c\<rparr>) x y)"
  by (simp add: drawSquare_def fillRect_currentColor same_but_color_def fillRect_def
        split: option.splits)

lemma drawSpray_related:
  "same_but_color (drawSpray s rnd x y) (drawSpray (s\<lparr>currentColor := c\<rparr>) rnd x y)"
  by (simp add: drawSpray_def Let_def spray_loop_currentColor same_but_color_def
        split: option.splits)

lemma drawRainbow_related:
  assumes "globalCompositeOperation s = DestinationOut"
  shows "same_outcome (drawRainbow s t x y) (drawRainbow (s\<lparr>currentColor := c\<rparr>) t' x y)"
  using assms
  by (simp add: drawRainbow_def drawRound_def Let_def same_but_color_def
        paint_DestinationOut_color [of "Hsl _" _ _ "Rgb 0 0 0"] split: option.splits)

lemma draw_related:
  assumes "isEraser s"
  shows "same_outcome (draw s e x y)
           (draw (s\<lparr>currentColor := c, fillStyle := f\<rparr>) (e\<lparr>dateNow := t\<rparr>) x y)"
proof -
  define s1 where "s1 = s\<lparr>globalCompositeOperation := DestinationOut, fillStyle := Rgb 0 0 0\<rparr>"
  have gco: "globalCompositeOperation s1 = DestinationOut"
    by (simp add: s1_def)
  have upd: "s\<lparr>currentColor := c, globalCompositeOperation := DestinationOut,
               fillStyle := Rgb 0 0 0\<rparr> = s1\<lparr>currentColor := c\<rparr>"
    by (simp add: s1_def)
  have upd2: "s1\<lparr>currentColor := c\<rparr> = s1\<lparr>currentColor := c, fillStyle := fillStyle s1\<rparr>"
    by simp
  have d: "draw s e x y =
     (if brushType s = ''round'' then drawRound s1 x y
      else if brushType s = ''square'' then Returns (drawSquare s1 x y)
      else if brushType s = ''spray'' then Returns (drawSpray s1 (mathRandom e) x y)
      else if brushType s = ''rainbow'' then drawRainbow s1 (dateNow e) x y
      else Returns s1)"
    using assms by (simp add: draw_def s1_def)
  have d': "draw (s\<lparr>currentColor := c, fillStyle := f\<rparr>) (e\<lparr>dateNow := t\<rparr>) x y =
     (if brushType s = ''round'' then drawRound (s1\<lparr>currentColor := c\<rparr>) x y
      else if brushType s = ''square'' then Returns (drawSquare (s1\<lparr>currentColor := c\<rparr>) x y)
      else if brushType s = ''spray''
        then Returns (drawSpray (s1\<lparr>currentColor := c\<rparr>) (mathRandom e) x y)
      else if brushType s = ''rainbow'' then drawRainbow (s1\<lparr>currentColor := c\<rparr>) t x y
      else Returns (s1\<lparr>currentColor := c\<rparr>))"
    using assms by (simp add: draw_def upd)
  have round: "same_outcome (drawRound s1 x y) (drawRound (s1\<lparr>currentColor := c\<rparr>) x y)"
    by (subst upd2) (rule drawRound_related [OF gco])
  have plain: "same_but_color s1 (s1\<lparr>currentColor := c\<rparr>)"
    by (simp add: same_but_color_def)
  show ?thesis
    unfolding d d'
    by (simp add: round drawSquare_related drawSpray_related drawRainbow_related [OF gco] plain)
qed

lemma saveState_related:
  "same_outcome (saveState s) (saveState (s\<lparr>currentColor := c, fillStyle := f\<rparr>))"
  by (simp add: saveState_def Let_def same_but_color_def)

lemma saveState_isEraser:
  "isEraser (state_of (saveState s)) = isEraser s"
  by (simp add: saveState_def Let_def)

lemma spray_loop_isEraser [simp]:
  "isEraser (spray_loop rnd x y n d i s) = isEraser s"
proof (induction rnd x y n d i s rule: spray_loop.induct)
  case (1 rnd x y n d i s)
  show ?case
  proof (cases "i < d")
    case True
    with "1.IH" show ?thesis
      by (subst spray_loop.simps) (simp add: Let_def fillRect_def)
  next
    case False
    then show ?thesis
      by (subst spray_loop.simps) simp
  qed
qed

lemma draw_isEraser [simp]:
  "isEraser (state_of (draw s e x y)) = isEraser s"
  by (simp add: draw_def drawRound_def drawSquare_def drawSpray_def drawRainbow_def
        Let_def fillRect_def split: option.splits)

lemma same_but_color_obtain:
  assumes "same_but_color s s'"
  obtains c f where "s' = s\<lparr>currentColor := c, fillStyle := f\<rparr>"
  using assms unfolding same_but_color_def by blast

lemma and_then_related:
  assumes "same_outcome r r'"
    and "\<And>u u'. r = Returns u \<Longrightarrow> same_but_color u u' \<Longrightarrow> same_outcome (g u) (g' u')"
  shows "same_outcome (and_then r g) (and_then r' g')"
  using assms by (cases r; cases r') simp_all

lemma mousedown_related:
  assumes "isEraser s"
  shows "same_outcome (mousedown s e)
           (mousedown (s\<lparr>currentColor := c, fillStyle := f\<rparr>) (e\<lparr>dateNow := t\<rparr>))"
  unfolding mousedown_def
proof (rule and_then_related)
  have "s\<lparr>currentColor := c, fillStyle := f, isDrawing := True\<rparr> =
        (s\<lparr>isDrawing := True\<rparr>)\<lparr>currentColor := c, fillStyle := f\<rparr>"
    by simp
  then show "same_outcome (saveState (s\<lparr>isDrawing := True\<rparr>))
          (saveState (s\<lparr>currentColor := c, fillStyle := f, isDrawing := True\<rparr>))"
    by (simp only: saveState_related)
next
  fix u u'
  assume r: "saveState (s\<lparr>isDrawing := True\<rparr>) = Returns u" and rel: "same_but_color u u'"
  from r have "isEraser u = isEraser (s\<lparr>isDrawing := True\<rparr>)"
    using saveState_isEraser [of "s\<lparr>isDrawing := True\<rparr>"] by simp
  with assms have er: "isEraser u" by simp
  from rel obtain c' f' where u': "u' = u\<lparr>currentColor := c', fillStyle := f'\<rparr>"
    by (rule same_but_color_obtain)
  show "same_outcome (let pos = getMousePos e in draw u e (fst pos) (snd pos))
          (let pos = getMousePos (e\<lparr>dateNow := t\<rparr>)
           in draw u' (e\<lparr>dateNow := t\<rparr>) (fst pos) (snd pos))"
    unfolding u' using draw_related [OF er]
    by (simp add: getMousePos_def Let_def)
qed

lemma mousemove_related:
  assumes "isEraser s"
  shows "same_outcome (mousemove s e)
           (mousemove (s\<lparr>currentColor := c, fillStyle := f\<rparr>) (e\<lparr>dateNow := t\<rparr>))"
  using draw_related [OF assms]
  by (simp add: mousemove_def getMousePos_def Let_def same_but_color_def)

lemma dispatch_related:
  assumes "isEraser s" and "same_but_color s s'" and "same_but_clock ev ev'"
  shows "same_but_color (state_of (dispatch s ev)) (state_of (dispatch s' ev')) \<and>
         isEraser (state_of (dispatch s ev))"
proof -
  from assms(2) obtain c f where s': "s' = s\<lparr>currentColor := c, fillStyle := f\<rparr>"
    by (rule same_but_color_obtain)
  show ?thesis
  proof (cases ev)
    case (MouseDown e)
    with assms(3) obtain e' where ev': "ev' = MouseDown e'" and e': "e' = e\<lparr>dateNow := dateNow e'\<rparr>"
      by (cases ev') simp_all
    have "same_outcome (mousedown s e) (mousedown s' e')"
      unfolding s' by (subst e') (rule mousedown_related [OF assms(1)])
    moreover have "isEraser (state_of (mousedown s e))"
      using assms(1)
      by (cases "saveState (s\<lparr>isDrawing := True\<rparr>)")
         (use saveState_isEraser [of "s\<lparr>isDrawing := True\<rparr>"] in
           \<open>simp_all add: mousedown_def Let_def\<close>)
    ultimately show ?thesis
      using MouseDown ev' by (simp add: same_outcome_state_of)
  next
    case (MouseMove e)
    with assms(3) obtain e' where ev': "ev' = MouseMove e'" and e': "e' = e\<lparr>dateNow := dateNow e'\<rparr>"
      by (cases ev') simp_all
    have "same_outcome (mousemove s e) (mousemove s' e')"
      unfolding s' by (subst e') (rule mousemove_related [OF assms(1)])
    moreover have "isEraser (state_of (mousemove s e))"
      using assms(1) by (simp add: mousemove_def Let_def)
    ultimately show ?thesis
      using MouseMove ev' by (simp add: same_outcome_state_of)
  next
    case MouseUp
    with assms(3) have "ev' = MouseUp" by (cases ev') simp_all
    with MouseUp assms(1) show ?thesis
      by (simp add: s' mouseup_def same_but_color_def)
  next
    case MouseOut
    with assms(3) have "ev' = MouseOut" by (cases ev') simp_all
    with MouseOut assms(1) show ?thesis
      by (simp add: s' mouseout_def same_but_color_def)
  qed (use assms(3) in simp_all)
qed

lemma run_related:
  assumes "list_all2 same_but_clock evs evs'"
  shows "isEraser s \<Longrightarrow> same_but_color s s' \<Longrightarrow> same_but_color (run s evs) (run s' evs')"
  using assms
proof (induction evs evs' arbitrary: s s' rule: list_all2_induct)
  case Nil
  then show ?case by simp
next
  case (Cons ev evs ev' evs')
  from dispatch_related [OF Cons.prems(1,2) Cons.hyps(1)]
  show ?case
    by (simp add: Cons.IH)
qed

text \<open>
  Claim C7. With eraser mode on, a stamp of any brush (the four kinds, and any other value
  of the selector, which paints nothing) leaves the context in \<^verbatim>\<open>'destination-out'\<close>
  and every pixel either as it was or transparent; the canvas after the stamp is the same
  when the configured colour and the clock reading (hence the rainbow hue) are different;
  and so is the canvas after any sequence of pointer events, run from states that differ
  in the configured colour on events that differ in their clock readings.
\<close>

theorem eraser_ignores_color:
  assumes "isEraser s"
  shows "canvas (state_of (draw (s\<lparr>currentColor := c'\<rparr>) (e\<lparr>dateNow := t'\<rparr>) x y)) =
           canvas (state_of (draw s e x y)) \<and>
         globalCompositeOperation (state_of (draw s e x y)) = DestinationOut \<and>
         (\<forall>i j. pixel (canvas (state_of (draw s e x y))) i j = pixel (canvas s) i j \<or>
                pixel (canvas (state_of (draw s e x y))) i j = Transparent) \<and>
         (\<forall>evs evs'. list_all2 same_but_clock evs evs' \<longrightarrow>
            canvas (run (s\<lparr>currentColor := c'\<rparr>) evs') = canvas (run s evs))"
proof -
  define s1 where "s1 = s\<lparr>globalCompositeOperation := DestinationOut, fillStyle := Rgb 0 0 0\<rparr>"
  have gco: "globalCompositeOperation s1 = DestinationOut"
    by (simp add: s1_def)
  have cv: "canvas s1 = canvas s"
    by (simp add: s1_def)
  have upd: "s\<lparr>currentColor := c', globalCompositeOperation := DestinationOut,
               fillStyle := Rgb 0 0 0\<rparr> = s1\<lparr>currentColor := c'\<rparr>"
    by (simp add: s1_def)
  have d: "draw s e x y =
     (if brushType s = ''round'' then drawRound s1 x y
      else if brushType s = ''square'' then Returns (drawSquare s1 x y)
      else if brushType s = ''spray'' then Returns (drawSpray s1 (mathRandom e) x y)
      else if brushType s = ''rainbow'' then drawRainbow s1 (dateNow e) x y
      else Returns s1)"
    using assms by (simp add: draw_def s1_def)
  have d': "draw (s\<lparr>currentColor := c'\<rparr>) (e\<lparr>dateNow := t'\<rparr>) x y =
     (if brushType s = ''round'' then drawRound (s1\<lparr>currentColor := c'\<rparr>) x y
      else if brushType s = ''square'' then Returns (drawSquare (s1\<lparr>currentColor := c'\<rparr>) x y)
      else if brushType s = ''spray''
        then Returns (drawSpray (s1\<lparr>currentColor := c'\<rparr>) (mathRandom e) x y)
      else if brushType s = ''rainbow'' then drawRainbow (s1\<lparr>currentColor := c'\<rparr>) t' x y
      else Returns (s1\<lparr>currentColor := c'\<rparr>))"
    using assms by (simp add: draw_def upd)
  have same: "canvas (state_of (draw (s\<lparr>currentColor := c'\<rparr>) (e\<lparr>dateNow := t'\<rparr>) x y)) =
           canvas (state_of (draw s e x y))"
    unfolding d d'
    by (simp add: drawRound_erases(1) [OF gco] drawSquare_erases(1) [OF gco]
          drawSpray_erases(1) [OF gco] drawRainbow_erases(1) [OF gco])
  have mode: "globalCompositeOperation (state_of (draw s e x y)) = DestinationOut"
    unfolding d
    by (simp add: drawRound_erases(2) [OF gco] drawSquare_erases(2) [OF gco]
          drawSpray_erases(2) [OF gco] drawRainbow_erases(2) [OF gco] gco)
  have only: "pixel (canvas (state_of (draw s e x y))) i j = pixel (canvas s) i j \<or>
              pixel (canvas (state_of (draw s e x y))) i j = Transparent" for i j
    unfolding d
    using drawRound_erases(3) [OF gco, of x y i j] drawSquare_erases(3) [OF gco, of x y i j]
      drawSpray_erases(3) [OF gco, of "mathRandom e" x y i j]
      drawRainbow_erases(3) [OF gco, of "dateNow e" x y i j]
    by (simp add: cv)
  have runs: "canvas (run (s\<lparr>currentColor := c'\<rparr>) evs') = canvas (run s evs)"
    if "list_all2 same_but_clock evs evs'" for evs evs'
  proof -
    have "same_but_color s (s\<lparr>currentColor := c'\<rparr>)"
      by (simp add: same_but_color_def)
    from run_related [OF that assms this] show ?thesis
      by (rule same_but_color_canvas(1))
  qed
  from same mode only runs show ?thesis by blast
qed

theorem eraser_ignores_color_witness:
  "isEraser erased_state \<and>
   canvas (state_of (draw (erased_state\<lparr>currentColor := Rgb 255 0 0\<rparr>)
                          (click_at\<lparr>dateNow := 1234\<rparr>) 100 100)) =
     canvas (state_of (draw erased_state click_at 100 100)) \<and>
   globalCompositeOperation (state_of (draw erased_state click_at 100 100)) = DestinationOut \<and>
   canvas (run (erased_state\<lparr>currentColor := Rgb 255 0 0\<rparr>)
             [MouseDown (click_at\<lparr>dateNow := 1234\<rparr>), MouseUp]) =
     canvas (run erased_state [MouseDown click_at, MouseUp])"
proof -
  have h: "isEraser erased_state"
    by (simp add: erased_state_def page_loaded_def script_start_def saveState_def Let_def
        eraserBtn_click_def mousedown_def mouseup_def draw_def drawRound_def)
  have l: "list_all2 same_but_clock [MouseDown click_at, MouseUp]
             [MouseDown (click_at\<lparr>dateNow := 1234\<rparr>), MouseUp]"
    by simp
  from eraser_ignores_color [OF h, where c' = "Rgb 255 0 0" and e = click_at and t' = 1234
      and x = 100 and y = 100] h l
  show ?thesis by blast
qed

section \<open>Properties of the controls\<close>

text \<open>
  Claim C10. Whatever the state before, choosing a colour stores the chosen value as the
  current colour and switches eraser mode off (and removes the button's active mark);
  nothing else changes.
\<close>

theorem colorPicker_input_deactivates_eraser:
  "currentColor (colorPicker_input s v) = v \<and>
   isEraser (colorPicker_input s v) = False \<and>
   eraserBtnActive (colorPicker_input s v) = False \<and>
   colorPicker_input s v = s\<lparr>currentColor := v, isEraser := False, eraserBtnActive := False\<rparr>"
  by (simp add: colorPicker_input_def)

lemma parseInt_examples:
  "parseInt ''-3'' = Some (- 3)" "parseInt ''0'' = Some 0" "parseInt ''12px'' = Some 12"
  "parseInt '' 0x1F'' = Some 31" "parseInt [] = None" "parseInt ''abc'' = None"
  "parseInt ''7'' = Some 7" "parseInt ''2.5'' = Some 2"
  by (simp_all add: parseInt_def is_space_def is_digit_def digit_value_def Let_def)

text \<open>
  Claim C8, as the code has it. The slider handler stores \<^verbatim>\<open>parseInt\<close> of the control's
  value as it is: a zero or negative value becomes the brush size. When such a size
  reaches the spray stamp, the density \<open>2 \<times> size\<close> is not positive, the loop body never
  runs and the stamp leaves everything as it was.
\<close>

theorem nonpositive_size_reaches_spray:
  assumes "parseInt v = Some n" and "n \<le> 0"
  shows "brushSize (brushSizeSlider_input s v) = Some n \<and>
         drawSpray (brushSizeSlider_input s v) rnd x y = brushSizeSlider_input s v"
  using assms
  by (simp add: brushSizeSlider_input_def drawSpray_def Let_def spray_loop.simps)

theorem nonpositive_size_reaches_spray_witness:
  "parseInt ''-3'' = Some (- 3) \<and> (- 3 :: int) \<le> 0 \<and>
   brushSize (brushSizeSlider_input (page_loaded (black_canvas 1200 600)) ''-3'') = Some (- 3) \<and>
   drawSpray (brushSizeSlider_input (page_loaded (black_canvas 1200 600)) ''-3'')
     (\<lambda>k. 0) 100 100 =
   brushSizeSlider_input (page_loaded (black_canvas 1200 600)) ''-3''"
proof -
  have h1: "parseInt ''-3'' = Some (- 3)" by (rule parseInt_examples(1))
  have h2: "(- 3 :: int) \<le> 0" by simp
  from nonpositive_size_reaches_spray [OF h1 h2] h1 show ?thesis
    by simp
qed

text \<open>
  The slider reports \<^verbatim>\<open>"0"\<close> (or \<^verbatim>\<open>"-3"\<close>): the brush size is then 0 (or \<open>-3\<close>),
  neither rejected nor clamped, and with the spray brush selected the next pointer event
  hands it to \<^verbatim>\<open>drawSpray\<close>.
\<close>

theorem nonpositive_size_counterexample:
  "brushSize (run (page_loaded (black_canvas 1200 600))
                [BrushSizeInput ''0'', BrushTypeChange ''spray'']) = Some 0 \<and>
   brushType (run (page_loaded (black_canvas 1200 600))
                [BrushSizeInput ''0'', BrushTypeChange ''spray'']) = ''spray'' \<and>
   brushSize (brushSizeSlider_input (page_loaded (black_canvas 1200 600)) ''-3'') = Some (- 3)"
  by (simp add: brushSizeSlider_input_def brushTypeSelect_change_def parseInt_examples Let_def)

end
